theory Spec2Isabelle
  imports Main "HOL-Library.Multiset"
begin

section \<open>The Todo model (todos/models.py)\<close>

text \<open>
  A \<open>datetime.date\<close> is represented by its proleptic Gregorian ordinal
  (\<open>date.toordinal()\<close>), which orders dates exactly as Python's \<open><\<close> does.
  A timestamp (\<open>DateTimeField\<close>) is a number of microseconds on the UTC time line.
\<close>

type_synonym date = int
type_synonym datetime = int

text \<open>
  One row of the table behind \<open>class Todo(models.Model)\<close>. The primary key that
  Django adds to every model is the field \<open>pk\<close>; \<open>due_date\<close> is nullable
  (\<open>null=True\<close>), hence an option.
\<close>

record Todo =
  pk :: nat
  title :: string
  description :: string
  due_date :: "date option"
  is_resolved :: bool
  created_at :: datetime
  updated_at :: datetime

text \<open>
  The property \<open>Todo.is_overdue\<close>. The source reads the clock
  (\<open>timezone.now().date()\<close>); here the current date is the argument \<open>today\<close>.
  A \<open>date\<close> object is always truthy, so \<open>if self.due_date\<close> tests for \<open>None\<close>.
\<close>

definition is_overdue :: "Todo \<Rightarrow> date \<Rightarrow> bool" where
  "is_overdue self today =
     (case due_date self of
        Some d \<Rightarrow> (if \<not> is_resolved self then d < today else False)
      | None \<Rightarrow> False)"

section \<open>The record store\<close>

text \<open>
  The table of \<open>Todo\<close> rows, kept in insertion order, and the counter from which the
  database engine draws the next primary key (the \<open>AutoField\<close>; keys start at 1).
\<close>

record database =
  table :: "Todo list"
  next_pk :: nat

definition empty_db :: database where
  "empty_db = \<lparr>table = [], next_pk = 1\<rparr>"

text \<open>The primary-key constraint of the table: no two rows share a key.\<close>

definition pk_unique :: "database \<Rightarrow> bool" where
  "pk_unique db = distinct (map pk (table db))"

datatype error = Http404

text \<open>
  \<open>get_object_or_404(Todo, pk=pk)\<close>, also what \<open>get_object()\<close> of the generic update and
  delete views does: the row with that key, or the not-found error.
\<close>

definition get_object_or_404 :: "database \<Rightarrow> nat \<Rightarrow> error + Todo" where
  "get_object_or_404 db k =
     (case find (\<lambda>r. pk r = k) (table db) of
        None \<Rightarrow> Inl Http404
      | Some todo \<Rightarrow> Inr todo)"

text \<open>
  \<open>Model.save()\<close> of an instance that was read from the table: an \<open>UPDATE\<close> of the row
  with the instance's key, writing every field of the instance. \<open>auto_now=True\<close> replaces
  \<open>updated_at\<close> by the reading of the clock taken during the save; \<open>created_at\<close>
  (\<open>auto_now_add=True\<close>) is written back as the instance holds it.
\<close>

definition save :: "database \<Rightarrow> datetime \<Rightarrow> Todo \<Rightarrow> database" where
  "save db now obj =
     db\<lparr>table := map (\<lambda>r. if pk r = pk obj then obj\<lparr>updated_at := now\<rparr> else r) (table db)\<rparr>"

text \<open>\<open>instance.delete()\<close>: \<open>DELETE ... WHERE id = k\<close>.\<close>

definition delete :: "database \<Rightarrow> Todo \<Rightarrow> database" where
  "delete db obj = db\<lparr>table := filter (\<lambda>r. pk r \<noteq> pk obj) (table db)\<rparr>"

section \<open>TodoForm (todos/forms.py)\<close>

text \<open>
  \<open>TodoForm\<close> is a \<open>ModelForm\<close> over the fields title, description, due_date and
  is_resolved. What it receives is the submitted form data: for each text field the
  submitted string, or \<open>None\<close> when the request has no such parameter. The text of the
  due date is represented by the outcome of parsing it: nothing submitted (or the empty
  string), a text that is a date, or a text that is not.
\<close>

datatype raw_date = DateEmpty | DateText date | DateGarbage

record post_data =
  post_title :: "string option"
  post_description :: "string option"
  post_due_date :: raw_date
  post_is_resolved :: "string option"

text \<open>The error codes of the validation errors these fields can raise.\<close>

datatype code = required | max_length | null_characters_not_allowed | invalid

text \<open>
  Python's \<open>str.isspace\<close> on one character (code points below 256, the range of
  \<open>char\<close>) and \<open>str.strip()\<close>, which removes leading and trailing whitespace.
\<close>

definition isspace :: "char \<Rightarrow> bool" where
  "isspace c =
     (let n = (of_char c :: nat)
      in (9 \<le> n \<and> n \<le> 13) \<or> (28 \<le> n \<and> n \<le> 32) \<or> n = 133 \<or> n = 160)"

definition strip :: "string \<Rightarrow> string" where
  "strip s = rev (dropWhile isspace (rev (dropWhile isspace s)))"

text \<open>
  \<open>forms.CharField.to_python\<close> (with the default \<open>strip=True\<close>): a missing or empty
  value becomes the empty string, any other value is stripped.
\<close>

definition CharField_to_python :: "string option \<Rightarrow> string" where
  "CharField_to_python v =
     (case v of None \<Rightarrow> [] | Some s \<Rightarrow> (if s = [] then [] else strip s))"

text \<open>
  The validators every form \<open>CharField\<close> runs on a non-empty cleaned value: the
  \<open>MaxLengthValidator\<close> when the model field has a \<open>max_length\<close>, and the
  \<open>ProhibitNullCharactersValidator\<close>.
\<close>

definition run_validators :: "nat option \<Rightarrow> string \<Rightarrow> code list" where
  "run_validators limit s =
     (case limit of
        None \<Rightarrow> []
      | Some n \<Rightarrow> (if length s > n then [max_length] else []))
     @ (if CHR 0x00 \<in> set s then [null_characters_not_allowed] else [])"

text \<open>
  \<open>Field.clean\<close> of a \<open>CharField\<close>: \<open>to_python\<close>, then the \<open>required\<close> check, then
  the validators (skipped on an empty value).
\<close>

definition CharField_clean :: "bool \<Rightarrow> nat option \<Rightarrow> string option \<Rightarrow> code list + string" where
  "CharField_clean req limit v =
     (let s = CharField_to_python v
      in if s = [] then (if req then Inl [required] else Inr s)
         else (case run_validators limit s of
                 [] \<Rightarrow> Inr s
               | e # es \<Rightarrow> Inl (e # es)))"

text \<open>
  \<open>title = models.CharField(max_length=200)\<close>: required, at most 200 characters.
  \<open>description = models.TextField(blank=True)\<close>: optional, no length limit.
\<close>

definition clean_title :: "string option \<Rightarrow> code list + string" where
  "clean_title v = CharField_clean True (Some 200) v"

definition clean_description :: "string option \<Rightarrow> code list + string" where
  "clean_description v = CharField_clean False None v"

text \<open>\<open>due_date = models.DateField(null=True, blank=True)\<close>: optional.\<close>

definition clean_due_date :: "raw_date \<Rightarrow> code list + date option" where
  "clean_due_date v =
     (case v of
        DateEmpty \<Rightarrow> Inr None
      | DateText d \<Rightarrow> Inr (Some d)
      | DateGarbage \<Rightarrow> Inl [invalid])"

text \<open>
  \<open>is_resolved\<close> is rendered as a \<open>CheckboxInput\<close>, whose \<open>value_from_datadict\<close>
  decides the value: \<open>False\<close> when the parameter is absent, the boolean named by
  \<open>true\<close>/\<open>false\<close> in any letter case, and otherwise the truth value of the string
  (non-empty). The field is not required. Only the comparison with \<open>true\<close> and
  \<open>false\<close> uses \<open>str.lower\<close>, so lowering the letters A to Z is all of it that
  matters here.
\<close>

definition lower_char :: "char \<Rightarrow> char" where
  "lower_char c =
     (let n = (of_char c :: nat) in if 65 \<le> n \<and> n \<le> 90 then char_of (n + 32) else c)"

definition clean_is_resolved :: "string option \<Rightarrow> bool" where
  "clean_is_resolved v =
     (case v of
        None \<Rightarrow> False
      | Some s \<Rightarrow>
          (if map lower_char s = ''true'' then True
           else if map lower_char s = ''false'' then False
           else s \<noteq> []))"

record cleaned_data =
  cleaned_title :: string
  cleaned_description :: string
  cleaned_due_date :: "date option"
  cleaned_is_resolved :: bool

text \<open>\<open>form.errors\<close>: the fields that failed, each with its error codes.\<close>

definition field_errors :: "string \<Rightarrow> code list + 'a \<Rightarrow> (string \<times> code list) list" where
  "field_errors name r = (case r of Inl es \<Rightarrow> [(name, es)] | Inr _ \<Rightarrow> [])"

definition errors :: "post_data \<Rightarrow> (string \<times> code list) list" where
  "errors d =
     field_errors ''title'' (clean_title (post_title d))
     @ field_errors ''description'' (clean_description (post_description d))
     @ field_errors ''due_date'' (clean_due_date (post_due_date d))"

definition is_valid :: "post_data \<Rightarrow> bool" where
  "is_valid d = (errors d = [])"

text \<open>\<open>form.cleaned_data\<close> of a form without errors.\<close>

definition cleaned :: "post_data \<Rightarrow> cleaned_data" where
  "cleaned d =
     \<lparr>cleaned_title = CharField_to_python (post_title d),
      cleaned_description = CharField_to_python (post_description d),
      cleaned_due_date = (case post_due_date d of DateText x \<Rightarrow> Some x | _ \<Rightarrow> None),
      cleaned_is_resolved = clean_is_resolved (post_is_resolved d)\<rparr>"

section \<open>The views (todos/views.py)\<close>

datatype response =
  Redirect
  | NotFound
  | FormInvalid "(string \<times> code list) list"

text \<open>
  \<open>toggle_resolved(request, pk)\<close>. The clock is read once, by the save.
\<close>

definition toggle_resolved :: "database \<Rightarrow> datetime \<Rightarrow> nat \<Rightarrow> response \<times> database" where
  "toggle_resolved db now k =
     (case get_object_or_404 db k of
        Inl e \<Rightarrow> (NotFound, db)
      | Inr todo \<Rightarrow> (Redirect, save db now (todo\<lparr>is_resolved := \<not> is_resolved todo\<rparr>)))"

text \<open>
  \<open>TodoCreateView\<close>, a POST: an invalid form is rendered again with its errors and
  nothing is saved. A valid form saves a new instance: the engine assigns the key, and the
  two timestamp fields each read the clock during the insert, \<open>created_at\<close> first
  (\<open>now1\<close>) and \<open>updated_at\<close> second (\<open>now2\<close>).
\<close>

definition TodoCreateView_post ::
    "database \<Rightarrow> datetime \<Rightarrow> datetime \<Rightarrow> post_data \<Rightarrow> response \<times> database" where
  "TodoCreateView_post db now1 now2 d =
     (if is_valid d then
        (Redirect,
         db\<lparr>table := table db @
               [\<lparr>pk = next_pk db,
                 title = cleaned_title (cleaned d),
                 description = cleaned_description (cleaned d),
                 due_date = cleaned_due_date (cleaned d),
                 is_resolved = cleaned_is_resolved (cleaned d),
                 created_at = now1,
                 updated_at = now2\<rparr>],
            next_pk := Suc (next_pk db)\<rparr>)
      else (FormInvalid (errors d), db))"

text \<open>
  \<open>TodoUpdateView\<close>, a POST: the object is fetched first (not found ends the request),
  then the form is validated; a valid form writes its four cleaned fields into the instance
  and saves it.
\<close>

definition TodoUpdateView_post ::
    "database \<Rightarrow> datetime \<Rightarrow> nat \<Rightarrow> post_data \<Rightarrow> response \<times> database" where
  "TodoUpdateView_post db now k d =
     (case get_object_or_404 db k of
        Inl e \<Rightarrow> (NotFound, db)
      | Inr todo \<Rightarrow>
          (if is_valid d then
             (Redirect,
              save db now
                (todo\<lparr>title := cleaned_title (cleaned d),
                      description := cleaned_description (cleaned d),
                      due_date := cleaned_due_date (cleaned d),
                      is_resolved := cleaned_is_resolved (cleaned d)\<rparr>))
           else (FormInvalid (errors d), db)))"

text \<open>\<open>TodoDeleteView\<close>, a POST: fetch the object, delete it, redirect.\<close>

definition TodoDeleteView_post :: "database \<Rightarrow> nat \<Rightarrow> response \<times> database" where
  "TodoDeleteView_post db k =
     (case get_object_or_404 db k of
        Inl e \<Rightarrow> (NotFound, db)
      | Inr todo \<Rightarrow> (Redirect, delete db todo))"

subsection \<open>TodoListView\<close>

text \<open>
  A \<open>QuerySet\<close> of \<open>Todo\<close> is a description of a query, not its result: the
  \<open>is_resolved=...\<close> conditions added by \<open>filter\<close>, to be ordered by the model's
  \<open>Meta.ordering = ['-created_at']\<close>.
\<close>

record QuerySet =
  conditions :: "bool list"

definition objects_all :: QuerySet where
  "objects_all = \<lparr>conditions = []\<rparr>"

definition filter_is_resolved :: "QuerySet \<Rightarrow> bool \<Rightarrow> QuerySet" where
  "filter_is_resolved q b = q\<lparr>conditions := conditions q @ [b]\<rparr>"

text \<open>
  \<open>request.GET.get(key, default)\<close> on the parameters of the query string, in the order
  they were sent: the last value given for the key, or the default.
\<close>

definition GET_get :: "(string \<times> string) list \<Rightarrow> string \<Rightarrow> string \<Rightarrow> string" where
  "GET_get params key dflt = (case map_of (rev params) key of None \<Rightarrow> dflt | Some v \<Rightarrow> v)"

definition get_queryset :: "(string \<times> string) list \<Rightarrow> QuerySet" where
  "get_queryset GET =
     (let queryset = objects_all;
          filter_type = GET_get GET ''filter'' ''all''
      in if filter_type = ''resolved'' then filter_is_resolved queryset True
         else if filter_type = ''unresolved'' then filter_is_resolved queryset False
         else queryset)"

text \<open>
  Running a query. The rows are read in some order (\<open>scan\<close>, a rearrangement of the
  table); those that satisfy every condition are kept and sorted by \<open>created_at\<close>,
  descending, rows with equal \<open>created_at\<close> staying in the order in which they were
  read. The engine behind the application reads a table in its stored order, which is the
  order of insertion: there the scan is the table itself.
\<close>

definition matches :: "QuerySet \<Rightarrow> Todo \<Rightarrow> bool" where
  "matches q r = list_all (\<lambda>b. is_resolved r = b) (conditions q)"

definition fetch :: "Todo list \<Rightarrow> QuerySet \<Rightarrow> Todo list" where
  "fetch scan q = sort_key (\<lambda>r. - created_at r) (filter (matches q) scan)"

definition scan_of :: "database \<Rightarrow> Todo list \<Rightarrow> bool" where
  "scan_of db scan = (mset scan = mset (table db))"

text \<open>The list the view hands to its template (\<open>context['todos']\<close>).\<close>

definition TodoListView_get :: "Todo list \<Rightarrow> (string \<times> string) list \<Rightarrow> Todo list" where
  "TodoListView_get scan GET = fetch scan (get_queryset GET)"

subsection \<open>Sequences of requests\<close>

text \<open>
  A writing request, with the readings of the clock its handler takes (a create reads it
  twice, an update and a toggle once, a delete never). A request that is answered without
  a save leaves the readings it carries unused.
\<close>

datatype request =
  Create post_data datetime datetime
  | Update nat post_data datetime
  | Toggle nat datetime
  | Delete nat

fun handle :: "database \<Rightarrow> request \<Rightarrow> response \<times> database" where
  "handle db (Create d now1 now2) = TodoCreateView_post db now1 now2 d"
| "handle db (Update k d now) = TodoUpdateView_post db now k d"
| "handle db (Toggle k now) = toggle_resolved db now k"
| "handle db (Delete k) = TodoDeleteView_post db k"

fun run :: "database \<Rightarrow> request list \<Rightarrow> database" where
  "run db [] = db"
| "run db (q # qs) = run (snd (handle db q)) qs"

fun readings :: "request \<Rightarrow> datetime list" where
  "readings (Create d now1 now2) = [now1, now2]"
| "readings (Update k d now) = [now]"
| "readings (Toggle k now) = [now]"
| "readings (Delete k) = []"

text \<open>The clock never runs backwards over a sequence of requests.\<close>

definition clock_monotone :: "request list \<Rightarrow> bool" where
  "clock_monotone qs = sorted (concat (map readings qs))"

section \<open>Example data\<close>

text \<open>
  A small store used to evaluate the model: three rows, the second and third created at
  the same instant.
\<close>

definition milk :: Todo where
  "milk = \<lparr>pk = 1, title = ''Buy milk'', description = [], due_date = Some 100,
            is_resolved = False, created_at = 10, updated_at = 11\<rparr>"

definition done_todo :: Todo where
  "done_todo = \<lparr>pk = 2, title = ''Completed TODO'', description = ''This is completed'',
            due_date = None, is_resolved = True, created_at = 20, updated_at = 25\<rparr>"

definition twin :: Todo where
  "twin = \<lparr>pk = 3, title = ''Active TODO'', description = ''This is active'',
            due_date = None, is_resolved = False, created_at = 20, updated_at = 20\<rparr>"

definition example_db :: database where
  "example_db = \<lparr>table = [milk, done_todo, twin], next_pk = 4\<rparr>"

text \<open>Submitted forms: a title of one space, a title of 200 letters and a trailing space,
  and a form that gives a padded title and omits every other field.\<close>

definition blank_title :: post_data where
  "blank_title = \<lparr>post_title = Some '' '', post_description = None,
                   post_due_date = DateEmpty, post_is_resolved = None\<rparr>"

definition padded_title :: post_data where
  "padded_title = \<lparr>post_title = Some (replicate 200 CHR ''a'' @ '' ''), post_description = None,
                   post_due_date = DateEmpty, post_is_resolved = None\<rparr>"

definition retitle :: post_data where
  "retitle = \<lparr>post_title = Some ''  Buy oat milk '', post_description = None,
               post_due_date = DateEmpty, post_is_resolved = None\<rparr>"

text \<open>
  Two forms that fill every field: one as a browser sends a ticked checkbox, with a due
  date, and the one the test of the update view posts.
\<close>

definition ticked :: post_data where
  "ticked = \<lparr>post_title = Some ''Updated Title'', post_description = Some ''Updated description'',
              post_due_date = DateText 200, post_is_resolved = Some ''on''\<rparr>"

definition test_update :: post_data where
  "test_update = \<lparr>post_title = Some ''Updated Title'',
                   post_description = Some ''Updated description'',
                   post_due_date = DateEmpty, post_is_resolved = Some ''True''\<rparr>"

text \<open>A sequence of requests: a create, a toggle, a rejected update and an update.\<close>

definition session :: "request list" where
  "session = [Create retitle 10 11, Toggle 1 20, Update 1 blank_title 25, Update 1 retitle 30]"

section \<open>Properties\<close>

text \<open>
  C1. \<open>is_overdue\<close> is true exactly when a due date is set, the record is not resolved
  and the due date lies strictly before the current date. It is false without a due date,
  for a resolved record, and for a due date equal to or after today. It is a function of
  the record's fields and the date of the read, not a stored field: the same record is not
  overdue on its due date and overdue the day after.
\<close>

theorem is_overdue_iff:
  "(is_overdue t today = (\<exists>d. due_date t = Some d \<and> \<not> is_resolved t \<and> d < today))
   \<and> \<not> is_overdue (t\<lparr>due_date := None\<rparr>) today
   \<and> \<not> is_overdue (t\<lparr>is_resolved := True\<rparr>) today
   \<and> \<not> is_overdue (t\<lparr>due_date := Some today\<rparr>) today
   \<and> \<not> is_overdue (t\<lparr>due_date := Some d, is_resolved := False\<rparr>) d
   \<and> is_overdue (t\<lparr>due_date := Some d, is_resolved := False\<rparr>) (d + 1)"
  by (auto simp: is_overdue_def split: option.splits)

subsection \<open>Listing\<close>

lemma matches_resolved:
  "GET_get GET ''filter'' ''all'' = ''resolved'' \<Longrightarrow> matches (get_queryset GET) = is_resolved"
  by (rule ext) (simp add: matches_def get_queryset_def objects_all_def filter_is_resolved_def)

lemma matches_unresolved:
  "GET_get GET ''filter'' ''all'' = ''unresolved'' \<Longrightarrow>
     matches (get_queryset GET) = (\<lambda>r. \<not> is_resolved r)"
  by (rule ext) (simp add: matches_def get_queryset_def objects_all_def filter_is_resolved_def)

lemma matches_other:
  "GET_get GET ''filter'' ''all'' \<noteq> ''resolved'' \<Longrightarrow>
   GET_get GET ''filter'' ''all'' \<noteq> ''unresolved'' \<Longrightarrow>
     matches (get_queryset GET) = (\<lambda>r. True)"
  by (rule ext) (simp add: matches_def get_queryset_def objects_all_def)

lemma get_queryset_other:
  "GET_get GET ''filter'' ''all'' \<noteq> ''resolved'' \<Longrightarrow>
   GET_get GET ''filter'' ''all'' \<noteq> ''unresolved'' \<Longrightarrow>
     get_queryset GET = get_queryset [(''filter'', ''all'')]"
  by (simp add: get_queryset_def GET_get_def)

lemma GET_get_absent:
  assumes "key \<notin> fst ` set GET"
  shows "GET_get GET key dflt = dflt"
proof -
  from assms have "map_of (rev GET) key = None"
    by (simp add: map_of_eq_None_iff)
  then show ?thesis by (simp add: GET_get_def)
qed

lemma mset_fetch:
  "scan_of db scan \<Longrightarrow> mset (fetch scan q) = filter_mset (matches q) (mset (table db))"
  by (simp add: fetch_def scan_of_def)

lemma set_fetch:
  "scan_of db scan \<Longrightarrow> set (fetch scan q) = {r \<in> set (table db). matches q r}"
  using arg_cong [OF mset_fetch, of db scan set_mset q] by simp

text \<open>
  C2. Whatever order the engine reads the table in: with \<open>filter=resolved\<close> the list
  holds exactly the rows with \<open>is_resolved\<close> true (each once), with
  \<open>filter=unresolved\<close> exactly the rows with \<open>is_resolved\<close> false, with \<open>filter=all\<close>
  every row. Any other value of the parameter, and a request without the parameter, give
  the list that \<open>filter=all\<close> gives. The view has no failing branch.
\<close>

theorem list_filter_exact:
  assumes "scan_of db scan"
  shows "(GET_get GET ''filter'' ''all'' = ''resolved'' \<longrightarrow>
            mset (TodoListView_get scan GET) = filter_mset is_resolved (mset (table db))
          \<and> set (TodoListView_get scan GET) = {r \<in> set (table db). is_resolved r})
       \<and> (GET_get GET ''filter'' ''all'' = ''unresolved'' \<longrightarrow>
            mset (TodoListView_get scan GET)
              = filter_mset (\<lambda>r. \<not> is_resolved r) (mset (table db))
          \<and> set (TodoListView_get scan GET) = {r \<in> set (table db). \<not> is_resolved r})
       \<and> (GET_get GET ''filter'' ''all'' = ''all'' \<longrightarrow>
            mset (TodoListView_get scan GET) = mset (table db)
          \<and> set (TodoListView_get scan GET) = set (table db))
       \<and> (GET_get GET ''filter'' ''all'' \<noteq> ''resolved''
            \<and> GET_get GET ''filter'' ''all'' \<noteq> ''unresolved'' \<longrightarrow>
            TodoListView_get scan GET = TodoListView_get scan [(''filter'', ''all'')])
       \<and> (''filter'' \<notin> fst ` set GET \<longrightarrow>
            TodoListView_get scan GET = TodoListView_get scan [(''filter'', ''all'')])"
proof (intro conjI impI)
  assume v: "GET_get GET ''filter'' ''all'' = ''resolved''"
  show "mset (TodoListView_get scan GET) = filter_mset is_resolved (mset (table db))"
    by (simp add: TodoListView_get_def mset_fetch [OF assms] matches_resolved [OF v])
  show "set (TodoListView_get scan GET) = {r \<in> set (table db). is_resolved r}"
    by (simp add: TodoListView_get_def set_fetch [OF assms] matches_resolved [OF v])
next
  assume v: "GET_get GET ''filter'' ''all'' = ''unresolved''"
  show "mset (TodoListView_get scan GET)
          = filter_mset (\<lambda>r. \<not> is_resolved r) (mset (table db))"
    by (simp add: TodoListView_get_def mset_fetch [OF assms] matches_unresolved [OF v])
  show "set (TodoListView_get scan GET) = {r \<in> set (table db). \<not> is_resolved r}"
    by (simp add: TodoListView_get_def set_fetch [OF assms] matches_unresolved [OF v])
next
  assume v: "GET_get GET ''filter'' ''all'' = ''all''"
  then have m: "matches (get_queryset GET) = (\<lambda>r. True)"
    by (intro matches_other) simp_all
  show "mset (TodoListView_get scan GET) = mset (table db)"
    by (simp add: TodoListView_get_def mset_fetch [OF assms] m)
  show "set (TodoListView_get scan GET) = set (table db)"
    by (simp add: TodoListView_get_def set_fetch [OF assms] m)
next
  assume "GET_get GET ''filter'' ''all'' \<noteq> ''resolved''
            \<and> GET_get GET ''filter'' ''all'' \<noteq> ''unresolved''"
  then show "TodoListView_get scan GET = TodoListView_get scan [(''filter'', ''all'')]"
    by (simp add: TodoListView_get_def get_queryset_other)
next
  assume "''filter'' \<notin> fst ` set GET"
  then have "GET_get GET ''filter'' ''all'' = ''all''"
    by (rule GET_get_absent)
  then show "TodoListView_get scan GET = TodoListView_get scan [(''filter'', ''all'')]"
    by (simp add: TodoListView_get_def get_queryset_other)
qed

theorem list_filter_exact_witness:
  "scan_of example_db [twin, done_todo, milk]
   \<and> TodoListView_get [twin, done_todo, milk] [(''filter'', ''resolved'')] = [done_todo]
   \<and> set (TodoListView_get [twin, done_todo, milk] [(''filter'', ''resolved'')])
       = {r \<in> set (table example_db). is_resolved r}
   \<and> TodoListView_get [twin, done_todo, milk] [(''filter'', ''unresolved'')] = [twin, milk]
   \<and> set (TodoListView_get [twin, done_todo, milk] [(''filter'', ''unresolved'')])
       = {r \<in> set (table example_db). \<not> is_resolved r}
   \<and> set (TodoListView_get [twin, done_todo, milk] [(''filter'', ''all'')])
       = set (table example_db)
   \<and> TodoListView_get [twin, done_todo, milk] [(''filter'', ''bogus'')]
       = TodoListView_get [twin, done_todo, milk] [(''filter'', ''all'')]
   \<and> TodoListView_get [twin, done_todo, milk] []
       = TodoListView_get [twin, done_todo, milk] [(''filter'', ''all'')]"
proof -
  let ?scan = "[twin, done_todo, milk]"
  have h: "scan_of example_db ?scan"
    by (simp add: scan_of_def example_db_def)
  have g: "GET_get [(''filter'', v)] ''filter'' ''all'' = v" for v
    by (simp add: GET_get_def)
  have 1: "set (TodoListView_get ?scan [(''filter'', ''resolved'')])
             = {r \<in> set (table example_db). is_resolved r}"
    using list_filter_exact [OF h, of "[(''filter'', ''resolved'')]"] by (simp add: g)
  have 2: "set (TodoListView_get ?scan [(''filter'', ''unresolved'')])
             = {r \<in> set (table example_db). \<not> is_resolved r}"
    using list_filter_exact [OF h, of "[(''filter'', ''unresolved'')]"] by (simp add: g)
  have 3: "set (TodoListView_get ?scan [(''filter'', ''all'')]) = set (table example_db)"
    using list_filter_exact [OF h, of "[(''filter'', ''all'')]"] by (simp add: g)
  have 4: "TodoListView_get ?scan [(''filter'', ''bogus'')]
             = TodoListView_get ?scan [(''filter'', ''all'')]"
    using list_filter_exact [OF h, of "[(''filter'', ''bogus'')]"] by (simp add: g)
  have 5: "TodoListView_get ?scan [] = TodoListView_get ?scan [(''filter'', ''all'')]"
    using list_filter_exact [OF h, of "[]"] by simp
  have 6: "TodoListView_get ?scan [(''filter'', ''resolved'')] = [done_todo]"
    by (simp add: TodoListView_get_def fetch_def get_queryset_def GET_get_def objects_all_def
        filter_is_resolved_def matches_def milk_def done_todo_def twin_def)
  have 7: "TodoListView_get ?scan [(''filter'', ''unresolved'')] = [twin, milk]"
    by (simp add: TodoListView_get_def fetch_def get_queryset_def GET_get_def objects_all_def
        filter_is_resolved_def matches_def milk_def done_todo_def twin_def)
  from h 1 2 3 4 5 6 7 show ?thesis by blast
qed

subsection \<open>Looking up and saving rows\<close>

lemma find_map_same:
  "(\<And>x. P (f x) = P x) \<Longrightarrow> find P (map f xs) = map_option f (find P xs)"
  by (induction xs) simp_all

lemma find_pk_Some:
  "find (\<lambda>r. pk r = k) xs = Some t \<Longrightarrow> pk t = k \<and> t \<in> set xs"
  by (induction xs) (auto split: if_splits)

lemma find_pk_None:
  "(find (\<lambda>r. pk r = k) xs = None) = (k \<notin> pk ` set xs)"
  by (induction xs) auto

lemma get_found:
  assumes "get_object_or_404 db k = Inr t"
  shows "pk t = k \<and> t \<in> set (table db)"
proof (cases "find (\<lambda>r. pk r = k) (table db)")
  case None
  with assms show ?thesis by (simp add: get_object_or_404_def)
next
  case (Some a)
  with assms have "a = t" by (simp add: get_object_or_404_def)
  with Some show ?thesis using find_pk_Some by blast
qed

lemma get_not_found:
  "(get_object_or_404 db k = Inl Http404) = (k \<notin> pk ` set (table db))"
proof (cases "find (\<lambda>r. pk r = k) (table db)")
  case None
  then show ?thesis using find_pk_None [of k "table db"] by (simp add: get_object_or_404_def)
next
  case (Some a)
  then show ?thesis using find_pk_None [of k "table db"] by (simp add: get_object_or_404_def)
qed

lemma get_found_iff:
  "(get_object_or_404 db k = Inr t) = (find (\<lambda>r. pk r = k) (table db) = Some t)"
  by (cases "find (\<lambda>r. pk r = k) (table db)") (simp_all add: get_object_or_404_def)

lemma get_save_same:
  assumes "get_object_or_404 db k = Inr t" and "pk obj = k"
  shows "get_object_or_404 (save db now obj) k = Inr (obj\<lparr>updated_at := now\<rparr>)"
proof -
  from assms(1) have f: "find (\<lambda>r. pk r = k) (table db) = Some t"
    by (simp only: get_found_iff)
  from assms(1) have "pk t = k" using get_found by blast
  have "find (\<lambda>r. pk r = k) (map (\<lambda>r. if pk r = pk obj then obj\<lparr>updated_at := now\<rparr> else r) (table db))
        = map_option (\<lambda>r. if pk r = pk obj then obj\<lparr>updated_at := now\<rparr> else r) (find (\<lambda>r. pk r = k) (table db))"
    by (rule find_map_same) simp
  with f \<open>pk t = k\<close> assms(2) show ?thesis
    by (simp add: get_object_or_404_def save_def)
qed

lemma get_save_other:
  assumes "pk obj \<noteq> k"
  shows "get_object_or_404 (save db now obj) k = get_object_or_404 db k"
proof -
  have m: "find (\<lambda>r. pk r = k) (map (\<lambda>r. if pk r = pk obj then obj\<lparr>updated_at := now\<rparr> else r) (table db))
        = map_option (\<lambda>r. if pk r = pk obj then obj\<lparr>updated_at := now\<rparr> else r) (find (\<lambda>r. pk r = k) (table db))"
    by (rule find_map_same) simp
  show ?thesis
  proof (cases "find (\<lambda>r. pk r = k) (table db)")
    case None
    with m show ?thesis by (simp add: get_object_or_404_def save_def)
  next
    case (Some t)
    then have "pk t = k" using find_pk_Some by blast
    with Some m assms show ?thesis
      by (simp add: get_object_or_404_def save_def)
  qed
qed

lemma unique_row:
  assumes "pk_unique db" and "get_object_or_404 db k = Inr t"
    and "r \<in> set (table db)" and "pk r = k"
  shows "r = t"
proof -
  from assms(2) have "pk t = k" and "t \<in> set (table db)" using get_found by blast+
  moreover from assms(1) have "inj_on pk (set (table db))"
    by (simp add: pk_unique_def distinct_map)
  ultimately show ?thesis using assms(3,4) by (auto dest: inj_onD)
qed

lemma get_milk: "get_object_or_404 example_db 1 = Inr milk"
  by (simp add: get_object_or_404_def example_db_def milk_def)

lemma get_done: "get_object_or_404 example_db 2 = Inr done_todo"
  by (simp add: get_object_or_404_def example_db_def milk_def done_todo_def)

lemma get_twin: "get_object_or_404 example_db 3 = Inr twin"
  by (simp add: get_object_or_404_def example_db_def milk_def done_todo_def twin_def)

lemma example_unique: "pk_unique example_db"
  by (simp add: pk_unique_def example_db_def milk_def done_todo_def twin_def)

lemma valid_retitle: "is_valid retitle"
  by code_simp

lemma cleaned_retitle:
  "cleaned retitle = \<lparr>cleaned_title = ''Buy oat milk'', cleaned_description = [],
                       cleaned_due_date = None, cleaned_is_resolved = False\<rparr>"
  by code_simp

subsection \<open>Toggle, delete, update\<close>

text \<open>
  C5. For a record that exists, the first toggle negates \<open>is_resolved\<close> and sets
  \<open>updated_at\<close> to the time of that toggle; the second toggle brings
  \<open>is_resolved\<close> back to its original value and sets \<open>updated_at\<close> to the time of
  the second toggle. After both, the record differs from the original in \<open>updated_at\<close>
  only.
\<close>

theorem toggle_twice:
  assumes "get_object_or_404 db k = Inr t"
  shows "toggle_resolved db now1 k =
           (Redirect, save db now1 (t\<lparr>is_resolved := \<not> is_resolved t\<rparr>))
       \<and> get_object_or_404 (snd (toggle_resolved db now1 k)) k =
           Inr (t\<lparr>is_resolved := \<not> is_resolved t, updated_at := now1\<rparr>)
       \<and> toggle_resolved (snd (toggle_resolved db now1 k)) now2 k = (Redirect, save db now2 t)
       \<and> get_object_or_404 (snd (toggle_resolved (snd (toggle_resolved db now1 k)) now2 k)) k =
           Inr (t\<lparr>updated_at := now2\<rparr>)"
proof -
  let ?t1 = "t\<lparr>is_resolved := \<not> is_resolved t\<rparr>"
  let ?db1 = "save db now1 ?t1"
  from assms have k: "pk t = k" using get_found by blast
  have s1: "toggle_resolved db now1 k = (Redirect, ?db1)"
    using assms by (simp add: toggle_resolved_def)
  have g1: "get_object_or_404 ?db1 k = Inr (?t1\<lparr>updated_at := now1\<rparr>)"
    using assms by (rule get_save_same) (simp add: k)
  have m: "map (\<lambda>r. if pk r = k then t\<lparr>updated_at := now2\<rparr> else r)
            (map (\<lambda>r. if pk r = k then t\<lparr>is_resolved := \<not> is_resolved t, updated_at := now1\<rparr> else r) xs)
          = map (\<lambda>r. if pk r = k then t\<lparr>updated_at := now2\<rparr> else r) xs" for xs
    using k by (induction xs) simp_all
  have s2: "toggle_resolved ?db1 now2 k = (Redirect, save db now2 t)"
    using g1 k m by (simp add: toggle_resolved_def save_def)
  have g2: "get_object_or_404 (save db now2 t) k = Inr (t\<lparr>updated_at := now2\<rparr>)"
    using assms k by (rule get_save_same)
  show ?thesis
    using s1 g1 s2 g2 by simp
qed

theorem toggle_twice_witness:
  "get_object_or_404 example_db 1 = Inr milk
   \<and> is_resolved milk = False
   \<and> get_object_or_404 (snd (toggle_resolved example_db 30 1)) 1 =
        Inr (milk\<lparr>is_resolved := True, updated_at := 30\<rparr>)
   \<and> get_object_or_404 (snd (toggle_resolved (snd (toggle_resolved example_db 30 1)) 40 1)) 1 =
        Inr (milk\<lparr>updated_at := 40\<rparr>)"
proof -
  note th = toggle_twice [OF get_milk, of 30 40]
  have r: "is_resolved milk = False" by (simp add: milk_def)
  have a: "get_object_or_404 (snd (toggle_resolved example_db 30 1)) 1 =
        Inr (milk\<lparr>is_resolved := \<not> is_resolved milk, updated_at := 30\<rparr>)"
    using th by blast
  have b: "get_object_or_404 (snd (toggle_resolved (snd (toggle_resolved example_db 30 1)) 40 1)) 1 =
        Inr (milk\<lparr>updated_at := 40\<rparr>)"
    using th by blast
  have a': "get_object_or_404 (snd (toggle_resolved example_db 30 1)) 1 =
        Inr (milk\<lparr>is_resolved := True, updated_at := 30\<rparr>)"
    by (simp only: a r not_False_eq_True)
  from get_milk r a' b show ?thesis by blast
qed

text \<open>
  C6. After a delete that succeeded, looking the same key up gives not-found. The store
  after the delete is the store before it without the rows of that key: nothing of the
  record is kept, and toggle, update and delete on the key are all answered not-found.
\<close>

theorem delete_then_get:
  assumes "TodoDeleteView_post db k = (Redirect, db')"
  shows "get_object_or_404 db' k = Inl Http404
       \<and> db' = db\<lparr>table := filter (\<lambda>r. pk r \<noteq> k) (table db)\<rparr>
       \<and> k \<notin> pk ` set (table db')
       \<and> toggle_resolved db' now k = (NotFound, db')
       \<and> TodoUpdateView_post db' now k d = (NotFound, db')
       \<and> TodoDeleteView_post db' k = (NotFound, db')"
proof -
  from assms obtain t where t: "get_object_or_404 db k = Inr t"
    and d: "db' = delete db t"
    by (cases "get_object_or_404 db k") (auto simp: TodoDeleteView_post_def)
  from t have "pk t = k" using get_found by blast
  with d have eq: "db' = db\<lparr>table := filter (\<lambda>r. pk r \<noteq> k) (table db)\<rparr>"
    by (simp add: delete_def)
  then have nin: "k \<notin> pk ` set (table db')" by auto
  then have g: "get_object_or_404 db' k = Inl Http404"
    using get_not_found by blast
  from g have "toggle_resolved db' now k = (NotFound, db')"
    and "TodoUpdateView_post db' now k d = (NotFound, db')"
    and "TodoDeleteView_post db' k = (NotFound, db')"
    by (simp_all add: toggle_resolved_def TodoUpdateView_post_def TodoDeleteView_post_def)
  with g eq nin show ?thesis by blast
qed

theorem delete_then_get_witness:
  "TodoDeleteView_post example_db 2 = (Redirect, \<lparr>table = [milk, twin], next_pk = 4\<rparr>)
   \<and> get_object_or_404 \<lparr>table = [milk, twin], next_pk = 4\<rparr> 2 = Inl Http404"
proof -
  have d: "TodoDeleteView_post example_db 2 = (Redirect, \<lparr>table = [milk, twin], next_pk = 4\<rparr>)"
    by (simp add: TodoDeleteView_post_def get_done delete_def)
       (simp add: example_db_def milk_def done_todo_def twin_def)
  from delete_then_get [OF d, of 0 retitle] d show ?thesis by blast
qed

text \<open>
  C7. For a key that no row has, the lookup, the update, the delete and the toggle each
  answer not-found, and the store they return is the store they were given.
\<close>

theorem not_found_no_mutation:
  assumes "k \<notin> pk ` set (table db)"
  shows "get_object_or_404 db k = Inl Http404
       \<and> TodoUpdateView_post db now k d = (NotFound, db)
       \<and> TodoDeleteView_post db k = (NotFound, db)
       \<and> toggle_resolved db now k = (NotFound, db)"
proof -
  from assms have g: "get_object_or_404 db k = Inl Http404"
    using get_not_found by blast
  then show ?thesis
    by (simp add: toggle_resolved_def TodoUpdateView_post_def TodoDeleteView_post_def)
qed

theorem not_found_no_mutation_witness:
  "99999 \<notin> pk ` set (table example_db)
   \<and> get_object_or_404 example_db 99999 = Inl Http404
   \<and> TodoUpdateView_post example_db 50 99999 retitle = (NotFound, example_db)
   \<and> TodoDeleteView_post example_db 99999 = (NotFound, example_db)
   \<and> toggle_resolved example_db 50 99999 = (NotFound, example_db)"
proof -
  have h: "99999 \<notin> pk ` set (table example_db)"
    by (simp add: example_db_def milk_def done_todo_def twin_def)
  from not_found_no_mutation [OF h, of 50 retitle] h show ?thesis by blast
qed

text \<open>
  The primary-key constraint holds in every store reached from the empty one: keys are
  drawn from a counter that lies above every key in the table, and no request changes the
  key of a row.
\<close>

lemma save_pks: "map pk (table (save db now obj)) = map pk (table db)"
  by (simp add: save_def comp_def cong: if_cong)

lemma save_next_pk: "next_pk (save db now obj) = next_pk db"
  by (simp add: save_def)

lemma handle_keeps_key_constraint:
  assumes "pk_unique db" and "\<forall>r\<in>set (table db). pk r < next_pk db"
  shows "pk_unique (snd (handle db q))
       \<and> (\<forall>r\<in>set (table (snd (handle db q))). pk r < next_pk (snd (handle db q)))"
proof -
  have fresh: "next_pk db \<notin> pk ` set (table db)"
    using assms(2) by auto
  have saved: "pk_unique (save db now obj)
       \<and> (\<forall>r\<in>set (table (save db now obj)). pk r < next_pk (save db now obj))" for now obj
  proof
    show "pk_unique (save db now obj)"
      using assms(1) by (simp add: pk_unique_def save_pks)
    have e: "pk ` set (table (save db now obj)) = pk ` set (table db)"
      using arg_cong [OF save_pks, of set db now obj] by simp
    show "\<forall>r\<in>set (table (save db now obj)). pk r < next_pk (save db now obj)"
    proof
      fix r assume "r \<in> set (table (save db now obj))"
      then have "pk r \<in> pk ` set (table db)" using e by blast
      then show "pk r < next_pk (save db now obj)"
        using assms(2) by (auto simp: save_next_pk)
    qed
  qed
  show ?thesis
  proof (cases q)
    case (Create d n1 n2)
    with assms fresh show ?thesis
      by (cases "is_valid d") (auto simp: TodoCreateView_post_def pk_unique_def less_Suc_eq)
  next
    case (Update k d now)
    with assms saved show ?thesis
      by (cases "get_object_or_404 db k"; cases "is_valid d")
         (simp_all add: TodoUpdateView_post_def)
  next
    case (Toggle k now)
    with assms saved show ?thesis
      by (cases "get_object_or_404 db k") (simp_all add: toggle_resolved_def)
  next
    case (Delete k)
    with assms show ?thesis
      by (cases "get_object_or_404 db k")
         (auto simp: TodoDeleteView_post_def delete_def pk_unique_def distinct_map_filter)
  qed
qed

lemma run_keeps_key_constraint:
  assumes "pk_unique db" and "\<forall>r\<in>set (table db). pk r < next_pk db"
  shows "pk_unique (run db qs)"
  using assms
proof (induction qs arbitrary: db)
  case Nil
  then show ?case by simp
next
  case (Cons q qs)
  from handle_keeps_key_constraint [OF Cons.prems, of q]
  have "pk_unique (run (snd (handle db q)) qs)"
    by (intro Cons.IH) blast+
  then show ?case by simp
qed

lemma reachable_pk_unique: "pk_unique (run empty_db qs)"
  by (rule run_keeps_key_constraint) (simp_all add: empty_db_def pk_unique_def)

text \<open>
  C9. A toggle of an existing record changes \<open>is_resolved\<close> and \<open>updated_at\<close> of
  the rows with that key and nothing else: the key, title, description, due date and
  \<open>created_at\<close> of the record stay, every other row stays, and so does the key
  counter. (The table satisfies its primary-key constraint.)
\<close>

theorem toggle_frame:
  assumes "pk_unique db" and "get_object_or_404 db k = Inr t"
  shows "toggle_resolved db now k =
           (Redirect,
            db\<lparr>table := map (\<lambda>r. if pk r = k
                                 then r\<lparr>is_resolved := \<not> is_resolved r, updated_at := now\<rparr>
                                 else r) (table db)\<rparr>)
       \<and> get_object_or_404 (snd (toggle_resolved db now k)) k =
           Inr (t\<lparr>is_resolved := \<not> is_resolved t, updated_at := now\<rparr>)
       \<and> (\<forall>j. j \<noteq> k \<longrightarrow>
             get_object_or_404 (snd (toggle_resolved db now k)) j = get_object_or_404 db j)
       \<and> (\<forall>r \<in> set (table db). pk r \<noteq> k \<longrightarrow> r \<in> set (table (snd (toggle_resolved db now k))))
       \<and> pk_unique (snd (toggle_resolved db now k))"
proof -
  let ?t' = "t\<lparr>is_resolved := \<not> is_resolved t\<rparr>"
  let ?f = "\<lambda>r. if pk r = k then r\<lparr>is_resolved := \<not> is_resolved r, updated_at := now\<rparr> else r"
  from assms(2) have k: "pk t = k" using get_found by blast
  have s: "toggle_resolved db now k = (Redirect, save db now ?t')"
    using assms(2) by (simp add: toggle_resolved_def)
  have "map (\<lambda>r. if pk r = pk ?t' then ?t'\<lparr>updated_at := now\<rparr> else r) (table db)
        = map ?f (table db)"
  proof (rule map_cong [OF refl])
    fix r assume "r \<in> set (table db)"
    then show "(if pk r = pk ?t' then ?t'\<lparr>updated_at := now\<rparr> else r) = ?f r"
      using unique_row [OF assms, of r] k by auto
  qed
  then have e: "save db now ?t' = db\<lparr>table := map ?f (table db)\<rparr>"
    by (simp add: save_def)
  have g: "get_object_or_404 (save db now ?t') k = Inr (?t'\<lparr>updated_at := now\<rparr>)"
    using assms(2) by (rule get_save_same) (simp add: k)
  have o: "get_object_or_404 (save db now ?t') j = get_object_or_404 db j" if "j \<noteq> k" for j
    using that k by (intro get_save_other) simp
  have m: "r \<in> set (table (save db now ?t'))" if "r \<in> set (table db)" "pk r \<noteq> k" for r
    using that k by (force simp: save_def)
  have "map pk (table (save db now ?t')) = map pk (table db)"
    by (simp add: save_def comp_def cong: if_cong)
  then have u: "pk_unique (save db now ?t')"
    using assms(1) by (simp add: pk_unique_def)
  show ?thesis
    using s e g o m u by simp
qed

theorem toggle_frame_witness:
  "pk_unique example_db
   \<and> get_object_or_404 example_db 3 = Inr twin
   \<and> toggle_resolved example_db 30 3 =
        (Redirect,
         \<lparr>table = [milk, done_todo, twin\<lparr>is_resolved := True, updated_at := 30\<rparr>], next_pk = 4\<rparr>)
   \<and> get_object_or_404 (snd (toggle_resolved example_db 30 3)) 1 = Inr milk"
proof -
  note th = toggle_frame [OF example_unique get_twin, of 30]
  have e: "example_db\<lparr>table := map (\<lambda>r. if pk r = 3
                   then r\<lparr>is_resolved := \<not> is_resolved r, updated_at := 30\<rparr> else r)
                 (table example_db)\<rparr>
           = \<lparr>table = [milk, done_todo, twin\<lparr>is_resolved := True, updated_at := 30\<rparr>], next_pk = 4\<rparr>"
    by (simp add: example_db_def milk_def done_todo_def twin_def)
  have a: "toggle_resolved example_db 30 3 =
        (Redirect, example_db\<lparr>table := map (\<lambda>r. if pk r = 3
                   then r\<lparr>is_resolved := \<not> is_resolved r, updated_at := 30\<rparr> else r)
                 (table example_db)\<rparr>)"
    using th by blast
  have a': "toggle_resolved example_db 30 3 =
        (Redirect,
         \<lparr>table = [milk, done_todo, twin\<lparr>is_resolved := True, updated_at := 30\<rparr>], next_pk = 4\<rparr>)"
    by (simp only: a e)
  have n: "(1::nat) \<noteq> 3" by simp
  have b: "get_object_or_404 (snd (toggle_resolved example_db 30 3)) 1
            = get_object_or_404 example_db 1"
    using th n by blast
  have b': "get_object_or_404 (snd (toggle_resolved example_db 30 3)) 1 = Inr milk"
    by (simp only: b get_milk)
  from example_unique get_twin a' b' show ?thesis by blast
qed

subsection \<open>Order of the list\<close>








subsection \<open>Validation of the title\<close>

lemma to_python_Some: "CharField_to_python (Some raw) = strip raw"
  by (simp add: CharField_to_python_def strip_def)

lemma run_validators_Nil:
  "(run_validators limit s = []) =
     ((case limit of None \<Rightarrow> True | Some n \<Rightarrow> length s \<le> n) \<and> CHR 0x00 \<notin> set s)"
  by (simp add: run_validators_def split: option.splits)

lemma CharField_clean_Inr:
  "(\<exists>s. CharField_clean req limit v = Inr s) =
     (if CharField_to_python v = [] then \<not> req
      else run_validators limit (CharField_to_python v) = [])"
  by (cases "run_validators limit (CharField_to_python v)")
     (simp_all add: CharField_clean_def Let_def)

lemma clean_title_ok:
  "(\<exists>s. clean_title v = Inr s) =
     (CharField_to_python v \<noteq> [] \<and> length (CharField_to_python v) \<le> 200
      \<and> CHR 0x00 \<notin> set (CharField_to_python v))"
  unfolding clean_title_def CharField_clean_Inr by (simp add: run_validators_Nil)

lemma clean_description_ok:
  "(\<exists>s. clean_description v = Inr s) = (CHR 0x00 \<notin> set (CharField_to_python v))"
  unfolding clean_description_def CharField_clean_Inr by (simp add: run_validators_Nil)

lemma clean_due_date_ok:
  "(\<exists>x. clean_due_date v = Inr x) = (v \<noteq> DateGarbage)"
  by (cases v) (simp_all add: clean_due_date_def)

lemma field_errors_Nil: "(field_errors name r = []) = (\<exists>x. r = Inr x)"
  by (cases r) (simp_all add: field_errors_def)

lemma is_valid_iff:
  "is_valid d =
     (CharField_to_python (post_title d) \<noteq> []
      \<and> length (CharField_to_python (post_title d)) \<le> 200
      \<and> CHR 0x00 \<notin> set (CharField_to_python (post_title d))
      \<and> CHR 0x00 \<notin> set (CharField_to_python (post_description d))
      \<and> post_due_date d \<noteq> DateGarbage)"
  unfolding is_valid_def errors_def
  by (simp add: field_errors_Nil clean_title_ok clean_description_ok clean_due_date_ok)

lemma title_error_listed:
  assumes "\<not> (CharField_to_python (post_title d) \<noteq> []
      \<and> length (CharField_to_python (post_title d)) \<le> 200
      \<and> CHR 0x00 \<notin> set (CharField_to_python (post_title d)))"
  shows "\<exists>es. es \<noteq> [] \<and> errors d = (''title'', es) # tl (errors d)"
proof -
  from assms have "\<not> (\<exists>s. clean_title (post_title d) = Inr s)"
    unfolding clean_title_ok by blast
  then obtain es where e: "clean_title (post_title d) = Inl es"
    by (cases "clean_title (post_title d)") auto
  have "es \<noteq> []"
    using e by (auto simp: clean_title_def CharField_clean_def Let_def
        split: if_splits list.splits)
  with e show ?thesis
    by (simp add: errors_def field_errors_def)
qed

lemma strip_blank: "strip '' '' = []"
  by (simp add: strip_def isspace_def)

lemma to_python_blank: "CharField_to_python (post_title blank_title) = []"
  by (simp add: blank_title_def CharField_to_python_def strip_blank)

lemma errors_blank: "errors blank_title = [(''title'', [required])]"
  by code_simp

lemma to_python_retitle:
  "CharField_to_python (post_title retitle) = ''Buy oat milk''"
  "CharField_to_python (post_description retitle) = []"
  by code_simp+

text \<open>
  C4, as the code has it. The title that is validated is the cleaned one: the submitted
  title with leading and trailing whitespace removed (the empty string when no title was
  submitted). If the cleaned title is empty, longer than 200 characters or contains a NUL
  character, a create and an update of an existing record both answer with the form's
  errors, the first of which is on the field \<open>title\<close>, and return the store unchanged.
  If the cleaned title has 1 to 200 characters and no NUL character, and the description
  and the due date are valid too, a create appends one new record, holding the cleaned
  values, under the next key.
\<close>

theorem title_validation:
  "(\<forall>raw. post_title d = Some raw \<longrightarrow> CharField_to_python (post_title d) = strip raw)
   \<and> (post_title d = None \<longrightarrow> CharField_to_python (post_title d) = [])
   \<and> (CharField_to_python (post_title d) = []
        \<or> 200 < length (CharField_to_python (post_title d))
        \<or> CHR 0x00 \<in> set (CharField_to_python (post_title d)) \<longrightarrow>
         TodoCreateView_post db now1 now2 d = (FormInvalid (errors d), db)
       \<and> (\<exists>es. es \<noteq> [] \<and> errors d = (''title'', es) # tl (errors d))
       \<and> (\<forall>k t. get_object_or_404 db k = Inr t \<longrightarrow>
             TodoUpdateView_post db now1 k d = (FormInvalid (errors d), db)))
   \<and> (CharField_to_python (post_title d) \<noteq> []
        \<and> length (CharField_to_python (post_title d)) \<le> 200
        \<and> CHR 0x00 \<notin> set (CharField_to_python (post_title d))
        \<and> CHR 0x00 \<notin> set (CharField_to_python (post_description d))
        \<and> post_due_date d \<noteq> DateGarbage \<longrightarrow>
         TodoCreateView_post db now1 now2 d =
           (Redirect,
            db\<lparr>table := table db @
                  [\<lparr>pk = next_pk db,
                    title = CharField_to_python (post_title d),
                    description = CharField_to_python (post_description d),
                    due_date = (case post_due_date d of DateText x \<Rightarrow> Some x | _ \<Rightarrow> None),
                    is_resolved = clean_is_resolved (post_is_resolved d),
                    created_at = now1,
                    updated_at = now2\<rparr>],
               next_pk := Suc (next_pk db)\<rparr>))"
proof (intro conjI impI allI)
  fix raw assume "post_title d = Some raw"
  then show "CharField_to_python (post_title d) = strip raw"
    by (simp add: to_python_Some)
next
  assume "post_title d = None"
  then show "CharField_to_python (post_title d) = []"
    by (simp add: CharField_to_python_def)
next
  assume bad: "CharField_to_python (post_title d) = []
        \<or> 200 < length (CharField_to_python (post_title d))
        \<or> CHR 0x00 \<in> set (CharField_to_python (post_title d))"
  then have nv: "\<not> is_valid d"
    unfolding is_valid_iff by auto
  then show "TodoCreateView_post db now1 now2 d = (FormInvalid (errors d), db)"
    by (simp add: TodoCreateView_post_def)
  from bad show "\<exists>es. es \<noteq> [] \<and> errors d = (''title'', es) # tl (errors d)"
    by (intro title_error_listed) auto
  fix k t assume "get_object_or_404 db k = Inr t"
  with nv show "TodoUpdateView_post db now1 k d = (FormInvalid (errors d), db)"
    by (simp add: TodoUpdateView_post_def)
next
  assume "CharField_to_python (post_title d) \<noteq> []
        \<and> length (CharField_to_python (post_title d)) \<le> 200
        \<and> CHR 0x00 \<notin> set (CharField_to_python (post_title d))
        \<and> CHR 0x00 \<notin> set (CharField_to_python (post_description d))
        \<and> post_due_date d \<noteq> DateGarbage"
  then have "is_valid d"
    unfolding is_valid_iff by blast
  then show "TodoCreateView_post db now1 now2 d =
           (Redirect,
            db\<lparr>table := table db @
                  [\<lparr>pk = next_pk db,
                    title = CharField_to_python (post_title d),
                    description = CharField_to_python (post_description d),
                    due_date = (case post_due_date d of DateText x \<Rightarrow> Some x | _ \<Rightarrow> None),
                    is_resolved = clean_is_resolved (post_is_resolved d),
                    created_at = now1,
                    updated_at = now2\<rparr>],
               next_pk := Suc (next_pk db)\<rparr>)"
    by (simp add: TodoCreateView_post_def cleaned_def)
qed

theorem title_validation_witness:
  "post_title blank_title = Some '' ''
   \<and> strip '' '' = []
   \<and> TodoCreateView_post example_db 50 51 blank_title =
        (FormInvalid [(''title'', [required])], example_db)
   \<and> TodoUpdateView_post example_db 50 1 blank_title =
        (FormInvalid [(''title'', [required])], example_db)
   \<and> post_title retitle = Some ''  Buy oat milk ''
   \<and> strip ''  Buy oat milk '' = ''Buy oat milk''
   \<and> TodoCreateView_post example_db 50 51 retitle =
        (Redirect,
         \<lparr>table = [milk, done_todo, twin,
                   \<lparr>pk = 4, title = ''Buy oat milk'', description = [], due_date = None,
                    is_resolved = False, created_at = 50, updated_at = 51\<rparr>],
          next_pk = 5\<rparr>)"
proof -
  have b: "post_title blank_title = Some '' ''" by (simp add: blank_title_def)
  have r: "post_title retitle = Some ''  Buy oat milk ''"
    "post_due_date retitle = DateEmpty" "post_is_resolved retitle = None"
    by (simp_all add: retitle_def)
  note f = title_validation [of blank_title example_db 50 51]
  note g = title_validation [of retitle example_db 50 51]
  have 1: "strip '' '' = []"
    using f b to_python_blank by simp
  have 2: "TodoCreateView_post example_db 50 51 blank_title =
        (FormInvalid [(''title'', [required])], example_db)"
    using f to_python_blank errors_blank by simp
  have 3: "TodoUpdateView_post example_db 50 1 blank_title =
        (FormInvalid [(''title'', [required])], example_db)"
    using f to_python_blank errors_blank get_milk by simp
  have 4: "strip ''  Buy oat milk '' = ''Buy oat milk''"
    using g r to_python_retitle by simp
  have 5: "TodoCreateView_post example_db 50 51 retitle =
        (Redirect,
         \<lparr>table = [milk, done_todo, twin,
                   \<lparr>pk = 4, title = ''Buy oat milk'', description = [], due_date = None,
                    is_resolved = False, created_at = 50, updated_at = 51\<rparr>],
          next_pk = 5\<rparr>)"
    using g r to_python_retitle by (simp add: example_db_def clean_is_resolved_def)
  from b r(1) 1 2 3 4 5 show ?thesis by blast
qed

text \<open>
  A title of one space has length 1 and is rejected as missing; a title of 200 letters
  followed by a space has length 201 and is accepted.
\<close>

theorem title_counterexample:
  "length '' '' = 1
   \<and> TodoCreateView_post empty_db 0 1 blank_title
       = (FormInvalid [(''title'', [required])], empty_db)
   \<and> length (replicate 200 CHR ''a'' @ '' '') = 201
   \<and> TodoCreateView_post empty_db 0 1 padded_title
       = (Redirect,
          \<lparr>table = [\<lparr>pk = 1, title = replicate 200 CHR ''a'', description = [],
                     due_date = None, is_resolved = False, created_at = 0, updated_at = 1\<rparr>],
           next_pk = 2\<rparr>)"
  by code_simp

subsection \<open>What an update writes\<close>

lemma checkbox_values:
  "clean_is_resolved (Some ''on'') = True"
  "clean_is_resolved (Some ''True'') = True"
  "clean_is_resolved (Some ''true'') = True"
  "clean_is_resolved (Some ''1'') = True"
  "clean_is_resolved (Some ''False'') = False"
  "clean_is_resolved (Some ''false'') = False"
  "clean_is_resolved (Some []) = False"
  by code_simp+

lemma valid_title_given:
  assumes "is_valid d"
  shows "\<exists>raw. post_title d = Some raw \<and> strip raw \<noteq> []
               \<and> cleaned_title (cleaned d) = strip raw"
proof (cases "post_title d")
  case None
  with assms show ?thesis
    unfolding is_valid_iff by (simp add: CharField_to_python_def)
next
  case (Some raw)
  with assms show ?thesis
    unfolding is_valid_iff by (simp add: cleaned_def to_python_Some)
qed

text \<open>
  C10. A successful update of an existing record writes all four form fields, whatever the
  record held, and what it writes is what was submitted: the title and the description with
  surrounding whitespace removed, the submitted date, and the checkbox (true for \<open>on\<close>,
  \<open>True\<close>, \<open>true\<close> and \<open>1\<close>, false for \<open>False\<close>, \<open>false\<close> and the empty
  string). A field the form omits is reset: the description to the empty string,
  \<open>due_date\<close> to unset, \<open>is_resolved\<close> to false.
\<close>

theorem update_overwrites_all:
  assumes "get_object_or_404 db k = Inr t" and "is_valid d"
  shows "TodoUpdateView_post db now k d =
           (Redirect,
            save db now (t\<lparr>title := cleaned_title (cleaned d),
                            description := cleaned_description (cleaned d),
                            due_date := cleaned_due_date (cleaned d),
                            is_resolved := cleaned_is_resolved (cleaned d)\<rparr>))
       \<and> get_object_or_404 (snd (TodoUpdateView_post db now k d)) k =
           Inr (t\<lparr>title := cleaned_title (cleaned d),
                   description := cleaned_description (cleaned d),
                   due_date := cleaned_due_date (cleaned d),
                   is_resolved := cleaned_is_resolved (cleaned d),
                   updated_at := now\<rparr>)
       \<and> (\<exists>raw. post_title d = Some raw \<and> strip raw \<noteq> []
               \<and> cleaned_title (cleaned d) = strip raw)
       \<and> (\<forall>raw. post_description d = Some raw \<longrightarrow> cleaned_description (cleaned d) = strip raw)
       \<and> (post_description d = None \<longrightarrow> cleaned_description (cleaned d) = [])
       \<and> (\<forall>x. post_due_date d = DateText x \<longrightarrow> cleaned_due_date (cleaned d) = Some x)
       \<and> (post_due_date d = DateEmpty \<longrightarrow> cleaned_due_date (cleaned d) = None)
       \<and> (post_is_resolved d = None \<longrightarrow> cleaned_is_resolved (cleaned d) = False)
       \<and> (\<forall>s. post_is_resolved d = Some s \<longrightarrow>
             cleaned_is_resolved (cleaned d)
               = (map lower_char s = ''true'' \<or> (map lower_char s \<noteq> ''false'' \<and> s \<noteq> [])))
       \<and> (post_is_resolved d = Some ''on'' \<or> post_is_resolved d = Some ''True''
            \<or> post_is_resolved d = Some ''true'' \<or> post_is_resolved d = Some ''1'' \<longrightarrow>
             cleaned_is_resolved (cleaned d) = True)
       \<and> (post_is_resolved d = Some ''False'' \<or> post_is_resolved d = Some ''false''
            \<or> post_is_resolved d = Some [] \<longrightarrow>
             cleaned_is_resolved (cleaned d) = False)"
proof -
  let ?t' = "t\<lparr>title := cleaned_title (cleaned d),
                 description := cleaned_description (cleaned d),
                 due_date := cleaned_due_date (cleaned d),
                 is_resolved := cleaned_is_resolved (cleaned d)\<rparr>"
  from assms(1) have k: "pk t = k" using get_found by blast
  have s: "TodoUpdateView_post db now k d = (Redirect, save db now ?t')"
    using assms by (simp add: TodoUpdateView_post_def)
  have g: "get_object_or_404 (save db now ?t') k = Inr (?t'\<lparr>updated_at := now\<rparr>)"
    using assms(1) by (rule get_save_same) (simp add: k)
  from s g have g': "get_object_or_404 (snd (TodoUpdateView_post db now k d)) k
                  = Inr (?t'\<lparr>updated_at := now\<rparr>)"
    by simp
  note 0 = valid_title_given [OF assms(2)]
  have 1: "\<forall>raw. post_description d = Some raw \<longrightarrow> cleaned_description (cleaned d) = strip raw"
    by (simp add: cleaned_def to_python_Some)
  have 2: "post_description d = None \<longrightarrow> cleaned_description (cleaned d) = []"
    by (simp add: cleaned_def CharField_to_python_def)
  have 3: "\<forall>x. post_due_date d = DateText x \<longrightarrow> cleaned_due_date (cleaned d) = Some x"
    by (simp add: cleaned_def)
  have 4: "post_due_date d = DateEmpty \<longrightarrow> cleaned_due_date (cleaned d) = None"
    by (simp add: cleaned_def)
  have 5: "post_is_resolved d = None \<longrightarrow> cleaned_is_resolved (cleaned d) = False"
    by (simp add: cleaned_def clean_is_resolved_def)
  have 6: "\<forall>s. post_is_resolved d = Some s \<longrightarrow>
             cleaned_is_resolved (cleaned d)
               = (map lower_char s = ''true'' \<or> (map lower_char s \<noteq> ''false'' \<and> s \<noteq> []))"
    by (auto simp: cleaned_def clean_is_resolved_def)
  have c: "cleaned_is_resolved (cleaned d) = clean_is_resolved (post_is_resolved d)"
    by (simp add: cleaned_def)
  have 7: "post_is_resolved d = Some ''on'' \<or> post_is_resolved d = Some ''True''
            \<or> post_is_resolved d = Some ''true'' \<or> post_is_resolved d = Some ''1'' \<longrightarrow>
             cleaned_is_resolved (cleaned d) = True"
    unfolding c using checkbox_values by metis
  have 8: "post_is_resolved d = Some ''False'' \<or> post_is_resolved d = Some ''false''
            \<or> post_is_resolved d = Some [] \<longrightarrow>
             cleaned_is_resolved (cleaned d) = False"
    unfolding c using checkbox_values by metis
  from s g' 0 1 2 3 4 5 6 7 8 show ?thesis by blast
qed

lemma valid_forms: "is_valid ticked" "is_valid test_update"
  by code_simp+

lemma cleaned_ticked:
  "cleaned ticked = \<lparr>cleaned_title = ''Updated Title'',
                      cleaned_description = ''Updated description'',
                      cleaned_due_date = Some 200, cleaned_is_resolved = True\<rparr>"
  by code_simp

lemma cleaned_test_update:
  "cleaned test_update = \<lparr>cleaned_title = ''Updated Title'',
                      cleaned_description = ''Updated description'',
                      cleaned_due_date = None, cleaned_is_resolved = True\<rparr>"
  by code_simp

theorem update_overwrites_all_witness:
  "get_object_or_404 example_db 1 = Inr milk
   \<and> milk = \<lparr>pk = 1, title = ''Buy milk'', description = [], due_date = Some 100,
            is_resolved = False, created_at = 10, updated_at = 11\<rparr>
   \<and> is_valid ticked
   \<and> post_is_resolved ticked = Some ''on''
   \<and> post_due_date ticked = DateText 200
   \<and> get_object_or_404 (snd (TodoUpdateView_post example_db 50 1 ticked)) 1 =
        Inr \<lparr>pk = 1, title = ''Updated Title'', description = ''Updated description'',
             due_date = Some 200, is_resolved = True, created_at = 10, updated_at = 50\<rparr>
   \<and> is_valid test_update
   \<and> post_is_resolved test_update = Some ''True''
   \<and> post_due_date test_update = DateEmpty
   \<and> get_object_or_404 (snd (TodoUpdateView_post example_db 50 1 test_update)) 1 =
        Inr \<lparr>pk = 1, title = ''Updated Title'', description = ''Updated description'',
             due_date = None, is_resolved = True, created_at = 10, updated_at = 50\<rparr>
   \<and> get_object_or_404 example_db 2 = Inr done_todo
   \<and> is_resolved done_todo = True
   \<and> is_valid retitle
   \<and> post_title retitle = Some ''  Buy oat milk ''
   \<and> post_description retitle = None
   \<and> post_due_date retitle = DateEmpty
   \<and> post_is_resolved retitle = None
   \<and> get_object_or_404 (snd (TodoUpdateView_post example_db 50 2 retitle)) 2 =
        Inr \<lparr>pk = 2, title = ''Buy oat milk'', description = [], due_date = None,
             is_resolved = False, created_at = 20, updated_at = 50\<rparr>"
proof -
  note th1 = update_overwrites_all [OF get_milk valid_forms(1), of 50]
  note th2 = update_overwrites_all [OF get_milk valid_forms(2), of 50]
  note th3 = update_overwrites_all [OF get_done valid_retitle, of 50]
  have a: "get_object_or_404 (snd (TodoUpdateView_post example_db 50 1 ticked)) 1 =
           Inr (milk\<lparr>title := cleaned_title (cleaned ticked),
                   description := cleaned_description (cleaned ticked),
                   due_date := cleaned_due_date (cleaned ticked),
                   is_resolved := cleaned_is_resolved (cleaned ticked),
                   updated_at := 50\<rparr>)"
    using th1 by blast
  have av: "milk\<lparr>title := cleaned_title (cleaned ticked),
                   description := cleaned_description (cleaned ticked),
                   due_date := cleaned_due_date (cleaned ticked),
                   is_resolved := cleaned_is_resolved (cleaned ticked),
                   updated_at := 50\<rparr>
            = \<lparr>pk = 1, title = ''Updated Title'', description = ''Updated description'',
             due_date = Some 200, is_resolved = True, created_at = 10, updated_at = 50\<rparr>"
    by (simp add: cleaned_ticked milk_def)
  have b: "get_object_or_404 (snd (TodoUpdateView_post example_db 50 1 test_update)) 1 =
           Inr (milk\<lparr>title := cleaned_title (cleaned test_update),
                   description := cleaned_description (cleaned test_update),
                   due_date := cleaned_due_date (cleaned test_update),
                   is_resolved := cleaned_is_resolved (cleaned test_update),
                   updated_at := 50\<rparr>)"
    using th2 by blast
  have bv: "milk\<lparr>title := cleaned_title (cleaned test_update),
                   description := cleaned_description (cleaned test_update),
                   due_date := cleaned_due_date (cleaned test_update),
                   is_resolved := cleaned_is_resolved (cleaned test_update),
                   updated_at := 50\<rparr>
            = \<lparr>pk = 1, title = ''Updated Title'', description = ''Updated description'',
             due_date = None, is_resolved = True, created_at = 10, updated_at = 50\<rparr>"
    by (simp add: cleaned_test_update milk_def)
  have c: "get_object_or_404 (snd (TodoUpdateView_post example_db 50 2 retitle)) 2 =
           Inr (done_todo\<lparr>title := cleaned_title (cleaned retitle),
                   description := cleaned_description (cleaned retitle),
                   due_date := cleaned_due_date (cleaned retitle),
                   is_resolved := cleaned_is_resolved (cleaned retitle),
                   updated_at := 50\<rparr>)"
    using th3 by blast
  have cv: "done_todo\<lparr>title := cleaned_title (cleaned retitle),
                   description := cleaned_description (cleaned retitle),
                   due_date := cleaned_due_date (cleaned retitle),
                   is_resolved := cleaned_is_resolved (cleaned retitle),
                   updated_at := 50\<rparr>
            = \<lparr>pk = 2, title = ''Buy oat milk'', description = [], due_date = None,
             is_resolved = False, created_at = 20, updated_at = 50\<rparr>"
    by (simp add: cleaned_retitle done_todo_def)
  have a': "get_object_or_404 (snd (TodoUpdateView_post example_db 50 1 ticked)) 1 =
        Inr \<lparr>pk = 1, title = ''Updated Title'', description = ''Updated description'',
             due_date = Some 200, is_resolved = True, created_at = 10, updated_at = 50\<rparr>"
    by (simp only: a av)
  have b': "get_object_or_404 (snd (TodoUpdateView_post example_db 50 1 test_update)) 1 =
        Inr \<lparr>pk = 1, title = ''Updated Title'', description = ''Updated description'',
             due_date = None, is_resolved = True, created_at = 10, updated_at = 50\<rparr>"
    by (simp only: b bv)
  have c': "get_object_or_404 (snd (TodoUpdateView_post example_db 50 2 retitle)) 2 =
        Inr \<lparr>pk = 2, title = ''Buy oat milk'', description = [], due_date = None,
             is_resolved = False, created_at = 20, updated_at = 50\<rparr>"
    by (simp only: c cv)
  have e: "is_resolved done_todo = True"
    "post_is_resolved ticked = Some ''on''" "post_due_date ticked = DateText 200"
    "post_is_resolved test_update = Some ''True''" "post_due_date test_update = DateEmpty"
    "post_title retitle = Some ''  Buy oat milk ''" "post_description retitle = None"
    "post_due_date retitle = DateEmpty" "post_is_resolved retitle = None"
    by (simp_all add: done_todo_def ticked_def test_update_def retitle_def)
  from a' b' c' e get_milk get_done valid_forms valid_retitle milk_def show ?thesis by blast
qed

subsection \<open>Timestamps\<close>

lemma save_rows:
  "r' \<in> set (table (save db now obj)) \<Longrightarrow> r' \<in> set (table db) \<or> r' = obj\<lparr>updated_at := now\<rparr>"
  by (auto simp: save_def)

lemma find_pk_append:
  "find (\<lambda>r. pk r = k) xs = Some t \<Longrightarrow> find (\<lambda>r. pk r = k) (xs @ ys) = Some t"
  by (induction xs) (auto split: if_splits)

lemma find_pk_filter_other:
  "j \<noteq> k \<Longrightarrow> find (\<lambda>r. pk r = k) (filter (\<lambda>r. pk r \<noteq> j) xs) = find (\<lambda>r. pk r = k) xs"
  by (induction xs) auto

lemma toggle_rows:
  assumes "r' \<in> set (table (snd (toggle_resolved db now k)))"
  shows "r' \<in> set (table db)
       \<or> (\<exists>t\<in>set (table db). created_at r' = created_at t \<and> updated_at r' = now)"
proof (cases "get_object_or_404 db k")
  case (Inl e)
  with assms show ?thesis by (simp add: toggle_resolved_def)
next
  case (Inr t)
  then have "t \<in> set (table db)" using get_found by blast
  moreover from assms Inr
  have "r' \<in> set (table db) \<or> r' = t\<lparr>is_resolved := \<not> is_resolved t, updated_at := now\<rparr>"
    using save_rows [of r' db now "t\<lparr>is_resolved := \<not> is_resolved t\<rparr>"]
    by (simp add: toggle_resolved_def)
  ultimately show ?thesis by auto
qed

lemma update_rows:
  assumes "r' \<in> set (table (snd (TodoUpdateView_post db now k d)))"
  shows "r' \<in> set (table db)
       \<or> (\<exists>t\<in>set (table db). created_at r' = created_at t \<and> updated_at r' = now)"
proof (cases "get_object_or_404 db k")
  case (Inl e)
  with assms show ?thesis by (simp add: TodoUpdateView_post_def)
next
  case (Inr t)
  then have t: "t \<in> set (table db)" using get_found by blast
  show ?thesis
  proof (cases "is_valid d")
    case False
    with assms Inr show ?thesis by (simp add: TodoUpdateView_post_def)
  next
    case True
    let ?t' = "t\<lparr>title := cleaned_title (cleaned d),
                   description := cleaned_description (cleaned d),
                   due_date := cleaned_due_date (cleaned d),
                   is_resolved := cleaned_is_resolved (cleaned d)\<rparr>"
    from assms Inr True have "r' \<in> set (table (save db now ?t'))"
      by (simp add: TodoUpdateView_post_def)
    then have "r' \<in> set (table db) \<or> r' = ?t'\<lparr>updated_at := now\<rparr>"
      by (rule save_rows)
    with t show ?thesis by auto
  qed
qed

lemma create_rows:
  assumes "r' \<in> set (table (snd (TodoCreateView_post db now1 now2 d)))"
  shows "r' \<in> set (table db) \<or> (created_at r' = now1 \<and> updated_at r' = now2)"
  using assms by (cases "is_valid d") (auto simp: TodoCreateView_post_def)

lemma delete_rows:
  assumes "r' \<in> set (table (snd (TodoDeleteView_post db k)))"
  shows "r' \<in> set (table db)"
  using assms
  by (cases "get_object_or_404 db k") (auto simp: TodoDeleteView_post_def delete_def)

lemma handle_rows:
  assumes "r' \<in> set (table (snd (handle db q)))"
  shows "r' \<in> set (table db)
       \<or> (\<exists>t\<in>set (table db). \<exists>now\<in>set (readings q).
             created_at r' = created_at t \<and> updated_at r' = now)
       \<or> (\<exists>n1 n2. readings q = [n1, n2] \<and> created_at r' = n1 \<and> updated_at r' = n2)"
proof (cases q)
  case (Create d n1 n2)
  with assms create_rows [of r' db n1 n2 d] show ?thesis by auto
next
  case (Update k d now)
  with assms update_rows [of r' db now k d] show ?thesis by auto
next
  case (Toggle k now)
  with assms toggle_rows [of r' db now k] show ?thesis by auto
next
  case (Delete k)
  with assms delete_rows [of r' db k] show ?thesis by auto
qed

lemma run_created_le_updated:
  assumes "sorted (concat (map readings qs))"
    and "\<forall>r\<in>set (table db). created_at r \<le> updated_at r
           \<and> (\<forall>x\<in>set (concat (map readings qs)). created_at r \<le> x)"
  shows "\<forall>r\<in>set (table (run db qs)). created_at r \<le> updated_at r"
  using assms
proof (induction qs arbitrary: db)
  case Nil
  then show ?case by simp
next
  case (Cons q qs)
  let ?rest = "concat (map readings qs)"
  from Cons.prems(1) have s: "sorted (readings q @ ?rest)" by simp
  then have s1: "sorted (readings q)" and s2: "sorted ?rest"
    and s3: "\<forall>x\<in>set (readings q). \<forall>y\<in>set ?rest. x \<le> y"
    by (simp_all add: sorted_append)
  have old: "created_at r \<le> updated_at r" "\<And>x. x \<in> set (readings q) \<Longrightarrow> created_at r \<le> x"
    "\<And>x. x \<in> set ?rest \<Longrightarrow> created_at r \<le> x" if "r \<in> set (table db)" for r
    using Cons.prems(2) that by auto
  have "\<forall>r'\<in>set (table (snd (handle db q))). created_at r' \<le> updated_at r'
           \<and> (\<forall>x\<in>set ?rest. created_at r' \<le> x)"
  proof
    fix r' assume "r' \<in> set (table (snd (handle db q)))"
    then consider (same) "r' \<in> set (table db)"
      | (saved) t now where "t \<in> set (table db)" "now \<in> set (readings q)"
          "created_at r' = created_at t" "updated_at r' = now"
      | (new) n1 n2 where "readings q = [n1, n2]" "created_at r' = n1" "updated_at r' = n2"
      using handle_rows by blast
    then show "created_at r' \<le> updated_at r' \<and> (\<forall>x\<in>set ?rest. created_at r' \<le> x)"
    proof cases
      case same
      then show ?thesis using old by blast
    next
      case saved
      then show ?thesis using old by auto
    next
      case new
      with s1 s3 show ?thesis by auto
    qed
  qed
  with s2 have "\<forall>r\<in>set (table (run (snd (handle db q)) qs)). created_at r \<le> updated_at r"
    by (rule Cons.IH)
  then show ?case by simp
qed


lemma handle_keeps_created_at:
  assumes "get_object_or_404 db k = Inr r" and "q \<noteq> Delete k"
  shows "\<exists>r'. get_object_or_404 (snd (handle db q)) k = Inr r' \<and> created_at r' = created_at r"
proof (cases q)
  case (Create d n1 n2)
  from assms(1) have "find (\<lambda>r. pk r = k) (table db) = Some r"
    by (simp only: get_found_iff)
  then have "find (\<lambda>r. pk r = k) (table db @ ys) = Some r" for ys
    by (rule find_pk_append)
  then have "get_object_or_404 (snd (TodoCreateView_post db n1 n2 d)) k = Inr r"
    using assms(1) by (cases "is_valid d") (simp_all add: TodoCreateView_post_def get_object_or_404_def)
  with Create show ?thesis by simp
next
  case (Update j d now)
  show ?thesis
  proof (cases "get_object_or_404 db j")
    case (Inl e)
    with Update assms(1) show ?thesis by (simp add: TodoUpdateView_post_def)
  next
    case (Inr t)
    let ?t' = "t\<lparr>title := cleaned_title (cleaned d),
                   description := cleaned_description (cleaned d),
                   due_date := cleaned_due_date (cleaned d),
                   is_resolved := cleaned_is_resolved (cleaned d)\<rparr>"
    from Inr have j: "pk t = j" using get_found by blast
    show ?thesis
    proof (cases "is_valid d")
      case False
      with Update Inr assms(1) show ?thesis by (simp add: TodoUpdateView_post_def)
    next
      case True
      with Update Inr have h: "snd (handle db q) = save db now ?t'"
        by (simp add: TodoUpdateView_post_def)
      show ?thesis
      proof (cases "j = k")
        case True
        with Inr assms(1) have "t = r" by simp
        moreover have "get_object_or_404 (save db now ?t') k = Inr (?t'\<lparr>updated_at := now\<rparr>)"
          using assms(1) by (rule get_save_same) (simp add: j True)
        ultimately show ?thesis using h by simp
      next
        case False
        then have "get_object_or_404 (save db now ?t') k = get_object_or_404 db k"
          using j by (intro get_save_other) simp
        with h assms(1) show ?thesis by simp
      qed
    qed
  qed
next
  case (Toggle j now)
  show ?thesis
  proof (cases "get_object_or_404 db j")
    case (Inl e)
    with Toggle assms(1) show ?thesis by (simp add: toggle_resolved_def)
  next
    case (Inr t)
    let ?t' = "t\<lparr>is_resolved := \<not> is_resolved t\<rparr>"
    from Inr have j: "pk t = j" using get_found by blast
    from Toggle Inr have h: "snd (handle db q) = save db now ?t'"
      by (simp add: toggle_resolved_def)
    show ?thesis
    proof (cases "j = k")
      case True
      with Inr assms(1) have "t = r" by simp
      moreover have "get_object_or_404 (save db now ?t') k = Inr (?t'\<lparr>updated_at := now\<rparr>)"
        using assms(1) by (rule get_save_same) (simp add: j True)
      ultimately show ?thesis using h by simp
    next
      case False
      then have "get_object_or_404 (save db now ?t') k = get_object_or_404 db k"
        using j by (intro get_save_other) simp
      with h assms(1) show ?thesis by simp
    qed
  qed
next
  case (Delete j)
  with assms(2) have jk: "j \<noteq> k" by simp
  show ?thesis
  proof (cases "get_object_or_404 db j")
    case (Inl e)
    with Delete assms(1) show ?thesis by (simp add: TodoDeleteView_post_def)
  next
    case (Inr t)
    then have "pk t = j" using get_found by blast
    with Delete Inr have "table (snd (handle db q)) = filter (\<lambda>r. pk r \<noteq> j) (table db)"
      by (simp add: TodoDeleteView_post_def delete_def)
    then have "get_object_or_404 (snd (handle db q)) k = get_object_or_404 db k"
      using jk by (simp add: get_object_or_404_def find_pk_filter_other)
    with assms(1) show ?thesis by simp
  qed
qed

lemma run_keeps_created_at:
  assumes "get_object_or_404 db k = Inr r" and "Delete k \<notin> set qs"
  shows "\<exists>r'. get_object_or_404 (run db qs) k = Inr r' \<and> created_at r' = created_at r"
  using assms
proof (induction qs arbitrary: db r)
  case Nil
  then show ?case by simp
next
  case (Cons q qs)
  from Cons.prems have "q \<noteq> Delete k" by auto
  with Cons.prems(1) obtain r1
    where 1: "get_object_or_404 (snd (handle db q)) k = Inr r1" "created_at r1 = created_at r"
    using handle_keeps_created_at by blast
  from Cons.prems(2) have "Delete k \<notin> set qs" by simp
  with 1(1) obtain r'
    where "get_object_or_404 (run (snd (handle db q)) qs) k = Inr r'" "created_at r' = created_at r1"
    using Cons.IH by blast
  with 1(2) show ?case by simp
qed

lemma toggle_refreshes:
  assumes "fst (toggle_resolved db now k) = Redirect"
  shows "\<exists>r'. get_object_or_404 (snd (toggle_resolved db now k)) k = Inr r' \<and> updated_at r' = now"
proof (cases "get_object_or_404 db k")
  case (Inl e)
  with assms show ?thesis by (simp add: toggle_resolved_def)
next
  case (Inr t)
  then have "pk t = k" using get_found by blast
  then have "get_object_or_404 (save db now (t\<lparr>is_resolved := \<not> is_resolved t\<rparr>)) k
              = Inr (t\<lparr>is_resolved := \<not> is_resolved t\<rparr>\<lparr>updated_at := now\<rparr>)"
    using Inr by (intro get_save_same) simp_all
  with Inr show ?thesis by (simp add: toggle_resolved_def)
qed

lemma update_refreshes:
  assumes "fst (TodoUpdateView_post db now k d) = Redirect"
  shows "\<exists>r'. get_object_or_404 (snd (TodoUpdateView_post db now k d)) k = Inr r'
              \<and> updated_at r' = now"
proof (cases "get_object_or_404 db k")
  case (Inl e)
  with assms show ?thesis by (simp add: TodoUpdateView_post_def)
next
  case (Inr t)
  let ?t' = "t\<lparr>title := cleaned_title (cleaned d),
                 description := cleaned_description (cleaned d),
                 due_date := cleaned_due_date (cleaned d),
                 is_resolved := cleaned_is_resolved (cleaned d)\<rparr>"
  from Inr have "pk t = k" using get_found by blast
  then have g: "get_object_or_404 (save db now ?t') k = Inr (?t'\<lparr>updated_at := now\<rparr>)"
    using Inr by (intro get_save_same) simp_all
  from assms Inr have "is_valid d"
    by (cases "is_valid d") (simp_all add: TodoUpdateView_post_def)
  with Inr g show ?thesis by (simp add: TodoUpdateView_post_def)
qed

lemma create_stamps:
  assumes "fst (TodoCreateView_post db now1 now2 d) = Redirect"
  shows "\<exists>r'. table (snd (TodoCreateView_post db now1 now2 d)) = table db @ [r']
              \<and> created_at r' = now1 \<and> updated_at r' = now2"
  using assms by (cases "is_valid d") (simp_all add: TodoCreateView_post_def)

text \<open>
  C8, as the code has it. Provided the clock read by the two timestamp fields never runs backwards, every
  record of every store reached from the empty one by a sequence of requests has
  \<open>created_at\<close> at most \<open>updated_at\<close>. A record keeps its \<open>created_at\<close> through
  every sequence of requests that does not delete it. A successful create stamps the new
  record with the two readings it takes, and a successful update or toggle leaves the
  record with \<open>updated_at\<close> equal to the reading taken by that request.
\<close>

theorem timestamps:
  "(clock_monotone qs \<longrightarrow>
      (\<forall>r\<in>set (table (run empty_db qs)). created_at r \<le> updated_at r))
   \<and> (get_object_or_404 db k = Inr r \<and> Delete k \<notin> set qs \<longrightarrow>
      (\<exists>r'. get_object_or_404 (run db qs) k = Inr r' \<and> created_at r' = created_at r))
   \<and> (fst (handle db (Create d now1 now2)) = Redirect \<longrightarrow>
      (\<exists>r'. table (snd (handle db (Create d now1 now2))) = table db @ [r']
            \<and> created_at r' = now1 \<and> updated_at r' = now2))
   \<and> (fst (handle db (Update k d now)) = Redirect \<longrightarrow>
      (\<exists>r'. get_object_or_404 (snd (handle db (Update k d now))) k = Inr r'
            \<and> updated_at r' = now))
   \<and> (fst (handle db (Toggle k now)) = Redirect \<longrightarrow>
      (\<exists>r'. get_object_or_404 (snd (handle db (Toggle k now))) k = Inr r'
            \<and> updated_at r' = now))"
proof (intro conjI impI)
  assume "clock_monotone qs"
  then have "sorted (concat (map readings qs))" by (simp add: clock_monotone_def)
  then show "\<forall>r\<in>set (table (run empty_db qs)). created_at r \<le> updated_at r"
    by (rule run_created_le_updated) (simp add: empty_db_def)
next
  assume "get_object_or_404 db k = Inr r \<and> Delete k \<notin> set qs"
  then show "\<exists>r'. get_object_or_404 (run db qs) k = Inr r' \<and> created_at r' = created_at r"
    using run_keeps_created_at by blast
next
  assume "fst (handle db (Create d now1 now2)) = Redirect"
  then show "\<exists>r'. table (snd (handle db (Create d now1 now2))) = table db @ [r']
            \<and> created_at r' = now1 \<and> updated_at r' = now2"
    using create_stamps by simp
next
  assume "fst (handle db (Update k d now)) = Redirect"
  then show "\<exists>r'. get_object_or_404 (snd (handle db (Update k d now))) k = Inr r'
            \<and> updated_at r' = now"
    using update_refreshes by simp
next
  assume "fst (handle db (Toggle k now)) = Redirect"
  then show "\<exists>r'. get_object_or_404 (snd (handle db (Toggle k now))) k = Inr r'
            \<and> updated_at r' = now"
    using toggle_refreshes by simp
qed

lemma run_session:
  "run empty_db session =
     \<lparr>table = [\<lparr>pk = 1, title = ''Buy oat milk'', description = [], due_date = None,
                is_resolved = False, created_at = 10, updated_at = 30\<rparr>],
      next_pk = 2\<rparr>"
  by code_simp

lemma clock_session: "clock_monotone session"
  by (simp add: clock_monotone_def session_def)

theorem timestamps_witness:
  "clock_monotone session
   \<and> table (run empty_db session) =
       [\<lparr>pk = 1, title = ''Buy oat milk'', description = [], due_date = None,
         is_resolved = False, created_at = 10, updated_at = 30\<rparr>]
   \<and> created_at \<lparr>pk = 1, title = ''Buy oat milk'', description = [], due_date = None,
         is_resolved = False, created_at = 10, updated_at = 30\<rparr>
       \<le> updated_at \<lparr>pk = 1, title = ''Buy oat milk'', description = [], due_date = None,
         is_resolved = False, created_at = 10, updated_at = 30\<rparr>
   \<and> get_object_or_404 example_db 1 = Inr milk
   \<and> Delete 1 \<notin> set session
   \<and> (\<exists>r'. get_object_or_404 (run example_db session) 1 = Inr r'
           \<and> created_at r' = created_at milk)
   \<and> fst (handle example_db (Create retitle 50 51)) = Redirect
   \<and> (\<exists>r'. table (snd (handle example_db (Create retitle 50 51))) = table example_db @ [r']
           \<and> created_at r' = 50 \<and> updated_at r' = 51)
   \<and> fst (handle example_db (Update 1 retitle 50)) = Redirect
   \<and> (\<exists>r'. get_object_or_404 (snd (handle example_db (Update 1 retitle 50))) 1 = Inr r'
           \<and> updated_at r' = 50)
   \<and> fst (handle example_db (Toggle 1 50)) = Redirect
   \<and> (\<exists>r'. get_object_or_404 (snd (handle example_db (Toggle 1 50))) 1 = Inr r'
           \<and> updated_at r' = 50)"
proof -
  note th = timestamps [of session example_db 1 milk retitle 50 51 50]
  have t: "table (run empty_db session) =
       [\<lparr>pk = 1, title = ''Buy oat milk'', description = [], due_date = None,
         is_resolved = False, created_at = 10, updated_at = 30\<rparr>]"
    by (simp only: run_session database.simps)
  from th clock_session
  have "\<forall>r\<in>set (table (run empty_db session)). created_at r \<le> updated_at r"
    by blast
  then have a: "created_at \<lparr>pk = 1, title = ''Buy oat milk'', description = [], due_date = None,
         is_resolved = False, created_at = 10, updated_at = 30\<rparr>
       \<le> updated_at \<lparr>pk = 1, title = ''Buy oat milk'', description = [], due_date = None,
         is_resolved = False, created_at = 10, updated_at = 30\<rparr>"
    unfolding t by (simp only: list.set ball_simps)
  have n: "Delete 1 \<notin> set session" by (simp add: session_def)
  have b: "\<exists>r'. get_object_or_404 (run example_db session) 1 = Inr r'
           \<and> created_at r' = created_at milk"
    using th get_milk n by blast
  have c1: "fst (handle example_db (Create retitle 50 51)) = Redirect"
    by (simp add: TodoCreateView_post_def valid_retitle)
  have c2: "fst (handle example_db (Update 1 retitle 50)) = Redirect"
    using get_milk valid_retitle by (simp add: TodoUpdateView_post_def)
  have c3: "fst (handle example_db (Toggle 1 50)) = Redirect"
    using get_milk by (simp add: toggle_resolved_def)
  have d1: "\<exists>r'. table (snd (handle example_db (Create retitle 50 51))) = table example_db @ [r']
           \<and> created_at r' = 50 \<and> updated_at r' = 51"
    using th c1 by blast
  have d2: "\<exists>r'. get_object_or_404 (snd (handle example_db (Update 1 retitle 50))) 1 = Inr r'
           \<and> updated_at r' = 50"
    using th c2 by blast
  have d3: "\<exists>r'. get_object_or_404 (snd (handle example_db (Toggle 1 50))) 1 = Inr r'
           \<and> updated_at r' = 50"
    using th c3 by blast
  from clock_session t a get_milk n b c1 d1 c2 d2 c3 d3 show ?thesis by blast
qed

text \<open>
  Without the hypothesis on the clock the first part fails: when the clock is set back
  between a create (readings 10 and 11) and a toggle (reading 5), the toggle stores a
  reading that precedes \<open>created_at\<close>.
\<close>

theorem timestamps_counterexample:
  "\<not> (\<forall>r\<in>set (table (run empty_db [Create retitle 10 11, Toggle 1 5])).
        created_at r \<le> updated_at r)"
proof -
  have "table (run empty_db [Create retitle 10 11, Toggle 1 5]) =
       [\<lparr>pk = 1, title = ''Buy oat milk'', description = [], due_date = None,
         is_resolved = True, created_at = 10, updated_at = 5\<rparr>]"
    by code_simp
  then show ?thesis by simp
qed

end
